theory Spec2Isabelle
  imports Complex_Main "HOL-Library.AList"
begin

section \<open>Event log (detection/models.py)\<close>

text \<open>
  A row of \<^verbatim>\<open>EventLog\<close>. The foreign key \<^verbatim>\<open>interview\<close> is the interview's id; the
  \<^verbatim>\<open>timestamp\<close> (\<^verbatim>\<open>auto_now_add\<close>) is the insertion time in microseconds, the resolution
  of a Python \<^verbatim>\<open>datetime\<close>. Confidence scores are exact rationals: floating-point rounding
  is not modelled.
\<close>

record event_log =
  interview :: nat
  event_type :: string
  timestamp :: int
  description :: string
  confidence_score :: rat

text \<open>\<^verbatim>\<open>EventLog.EVENT_TYPE_CHOICES\<close>: the stored values of the declared choices.\<close>

definition EVENT_TYPE_CHOICES :: "string list" where
  "EVENT_TYPE_CHOICES =
     [''focus_lost'', ''no_face'', ''multiple_faces'', ''phone_detected'',
      ''notes_detected'', ''device_detected'', ''drowsiness'', ''audio_anomaly'']"

text \<open>
  The table is the list of its rows in ascending primary-key order, which is insertion
  order (\<^verbatim>\<open>AutoField\<close>). \<^verbatim>\<open>EventLog.objects.create\<close> appends a row stamped with the
  current time; the \<^verbatim>\<open>choices\<close> of \<^verbatim>\<open>event_type\<close> are not validated by \<^verbatim>\<open>create\<close>.
\<close>

type_synonym event_table = "event_log list"

definition objects_create ::
  "event_table \<Rightarrow> int \<Rightarrow> nat \<Rightarrow> string \<Rightarrow> string \<Rightarrow> rat \<Rightarrow> event_table" where
  "objects_create tbl now iv ty descr conf =
     tbl @ [\<lparr>interview = iv, event_type = ty, timestamp = now,
             description = descr, confidence_score = conf\<rparr>]"

text \<open>\<^verbatim>\<open>EventLog.objects.filter(interview=interview)\<close>; the model declares no ordering.\<close>

definition filter_interview :: "event_table \<Rightarrow> nat \<Rightarrow> event_log list" where
  "filter_interview tbl iv = filter (\<lambda>e. interview e = iv) tbl"

text \<open>\<^verbatim>\<open>events.filter(event_type=ty).count()\<close>\<close>

definition count_type :: "event_log list \<Rightarrow> string \<Rightarrow> int" where
  "count_type events ty = int (length (filter (\<lambda>e. event_type e = ty) events))"

text \<open>\<^verbatim>\<open>events.filter(event_type__in=tys).count()\<close>\<close>

definition count_type_in :: "event_log list \<Rightarrow> string list \<Rightarrow> int" where
  "count_type_in events tys = int (length (filter (\<lambda>e. event_type e \<in> set tys) events))"

text \<open>
  \<^verbatim>\<open>QuerySet.first()\<close>: on a queryset with no ordering defined Django orders by primary
  key, so the result is the row inserted first, or \<^verbatim>\<open>None\<close> on an empty queryset.
\<close>

definition first :: "event_log list \<Rightarrow> event_log option" where
  "first events = (case events of [] \<Rightarrow> None | e # _ \<Rightarrow> Some e)"

section \<open>Detection summary (detection/detection_engine.py)\<close>

text \<open>The dictionary returned by \<^verbatim>\<open>get_detection_summary\<close>, one field per key.\<close>

record detection_summary =
  s_total_events :: int
  s_focus_loss :: int
  s_no_face :: int
  s_multiple_faces :: int
  s_phone_detected :: int
  s_notes_detected :: int
  s_device_detected :: int
  s_drowsiness :: int
  s_integrity_score :: int
  s_latest_event :: "int option"

definition get_detection_summary :: "event_table \<Rightarrow> nat \<Rightarrow> detection_summary" where
  "get_detection_summary tbl iv =
     (let events = filter_interview tbl iv in
      \<lparr>s_total_events = int (length events),
       s_focus_loss = count_type events ''focus_loss'',
       s_no_face = count_type events ''no_face'',
       s_multiple_faces = count_type events ''multiple_faces'',
       s_phone_detected = count_type events ''phone_detected'',
       s_notes_detected = count_type events ''notes_detected'',
       s_device_detected = count_type events ''device_detected'',
       s_drowsiness = count_type events ''drowsiness'',
       s_integrity_score = max 0 (100 - (int (length events) * 5)),
       s_latest_event = (case first events of Some e \<Rightarrow> Some (timestamp e) | None \<Rightarrow> None)\<rparr>)"

section \<open>Report and integrity score (reports/models.py, reports/views.py)\<close>

text \<open>
  The counters of \<^verbatim>\<open>Report\<close> (Django \<^verbatim>\<open>IntegerField\<close>s, so Python integers) and its
  \<^verbatim>\<open>integrity_score\<close>. The fields that play no part in scoring (candidate name, duration,
  quality metrics) are left out.
\<close>

record report =
  focus_loss_count :: int
  suspicious_events :: int
  integrity_score :: int
  focus_lost_events :: int
  no_face_events :: int
  multiple_faces_events :: int
  phone_detected_events :: int
  notes_detected_events :: int
  device_detected_events :: int
  drowsiness_events :: int
  audio_anomaly_events :: int

text \<open>
  \<^verbatim>\<open>Report.calculate_integrity_score\<close> stores the score in \<^verbatim>\<open>self.integrity_score\<close> and
  returns it: the model returns the updated report, whose \<open>integrity_score\<close> is the
  returned value.
\<close>

definition calculate_integrity_score :: "report \<Rightarrow> report" where
  "calculate_integrity_score self =
     (let base_score = 100;
          deductions = 0;
          deductions = deductions + focus_lost_events self * 2;
          deductions = deductions + suspicious_events self * 5;
          deductions = deductions + no_face_events self * 3;
          deductions = deductions + multiple_faces_events self * 8;
          deductions = deductions + phone_detected_events self * 10;
          deductions = deductions + notes_detected_events self * 8;
          deductions = deductions + device_detected_events self * 6;
          deductions = deductions + drowsiness_events self * 3;
          deductions = deductions + audio_anomaly_events self * 4
      in self\<lparr>integrity_score := max 0 (base_score - deductions)\<rparr>)"

text \<open>
  \<^verbatim>\<open>generate_report\<close> (reports/views.py): refused unless the interview is completed and
  has no report yet (\<open>None\<close>); otherwise the report is created from the interview's events
  with the default score 100 and then scored.
\<close>

definition generate_report :: "string \<Rightarrow> bool \<Rightarrow> event_table \<Rightarrow> nat \<Rightarrow> report option" where
  "generate_report status has_report tbl iv =
     (if status \<noteq> ''completed'' then None
      else if has_report then None
      else
        let events = filter_interview tbl iv;
            focus_lost = count_type events ''focus_lost'';
            suspicious = count_type_in events
              [''phone_detected'', ''notes_detected'', ''device_detected'', ''multiple_faces''];
            r = \<lparr>focus_loss_count = focus_lost,
                 suspicious_events = suspicious,
                 integrity_score = 100,
                 focus_lost_events = count_type events ''focus_lost'',
                 no_face_events = count_type events ''no_face'',
                 multiple_faces_events = count_type events ''multiple_faces'',
                 phone_detected_events = count_type events ''phone_detected'',
                 notes_detected_events = count_type events ''notes_detected'',
                 device_detected_events = count_type events ''device_detected'',
                 drowsiness_events = count_type events ''drowsiness'',
                 audio_anomaly_events = count_type events ''audio_anomaly''\<rparr>
        in Some (calculate_integrity_score r))"

section \<open>Detection thread: the tick (detection/detection_engine.py)\<close>

text \<open>
  Clock readings (\<^verbatim>\<open>time.time()\<close>, seconds) and random numbers are exact rationals
  supplied by the environment; floating-point rounding is not modelled. One record holds
  the random numbers a tick may draw: the \<open>r\<close> fields are the \<^verbatim>\<open>random.random()\<close> of the
  four simulated detectors, the \<open>u\<close> fields the \<^verbatim>\<open>random.random()\<close> inside each
  \<^verbatim>\<open>random.uniform\<close>, and \<open>pick_object\<close> the index drawn by \<^verbatim>\<open>random.choice\<close>.
\<close>

record draws =
  r_focus :: rat
  u_focus :: rat
  r_faces :: rat
  u_faces :: rat
  r_objects :: rat
  pick_object :: nat
  u_objects :: rat
  r_drowsiness :: rat
  u_drowsiness :: rat

text \<open>\<^verbatim>\<open>random.uniform(a, b)\<close> is \<^verbatim>\<open>a + (b - a) * random()\<close>.\<close>

definition uniform :: "rat \<Rightarrow> rat \<Rightarrow> rat \<Rightarrow> rat" where
  "uniform a b u = a + (b - a) * u"

definition detect_focus :: "draws \<Rightarrow> bool" where
  "detect_focus d = (r_focus d < 9 / 10)"

definition detect_faces :: "draws \<Rightarrow> int" where
  "detect_faces d =
     (let rand = r_faces d in
      if rand < 95 / 100 then 1 else if rand < 99 / 100 then 0 else 2)"

text \<open>\<^verbatim>\<open>random.choice\<close> of a three-element list: every index is reduced modulo 3.\<close>

definition detect_objects :: "draws \<Rightarrow> string list" where
  "detect_objects d =
     (if r_objects d < 5 / 100
      then [[''phone'', ''notes'', ''device''] ! (pick_object d mod 3)] else [])"

definition detect_drowsiness :: "draws \<Rightarrow> bool" where
  "detect_drowsiness d = (r_drowsiness d < 2 / 100)"

text \<open>Python's \<^verbatim>\<open>int(x)\<close> truncates towards zero; \<^verbatim>\<open>str\<close> of an integer is decimal.\<close>

definition py_int :: "rat \<Rightarrow> int" where
  "py_int x = (if 0 \<le> x then \<lfloor>x\<rfloor> else \<lceil>x\<rceil>)"

fun str_nat :: "nat \<Rightarrow> string" where
  "str_nat n =
     (if n < 10 then [''0123456789'' ! n] else str_nat (n div 10) @ [''0123456789'' ! (n mod 10)])"

declare str_nat.simps [simp del]

definition str_int :: "int \<Rightarrow> string" where
  "str_int i = (if i < 0 then ''-'' @ str_nat (nat (- i)) else str_nat (nat i))"

text \<open>
  What a tick does that can be observed from outside: a call of one of the four detectors,
  and a call \<^verbatim>\<open>_log_event(event_type, description, confidence)\<close>, which creates the
  \<^verbatim>\<open>EventLog\<close> row (a failing write is caught inside \<^verbatim>\<open>_log_event\<close> and loses that
  row only).
\<close>

datatype action =
    Provider string
  | LogEvent string string rat

fun logged_type :: "action \<Rightarrow> string option" where
  "logged_type (LogEvent ty _ _) = Some ty"
| "logged_type (Provider _) = None"

definition is_log :: "action \<Rightarrow> bool" where
  "is_log a = (logged_type a \<noteq> None)"

definition focus_lost_threshold :: rat where
  "focus_lost_threshold = 5"

definition no_face_threshold :: rat where
  "no_face_threshold = 10"

text \<open>Lines 69-79: focus detection with its timer.\<close>

definition focus_step :: "rat \<Rightarrow> draws \<Rightarrow> rat option \<Rightarrow> rat option \<times> action list" where
  "focus_step current_time d focus_lost_start =
     (let focus_maintained = detect_focus d in
      if \<not> focus_maintained then
        (case focus_lost_start of
           None \<Rightarrow> (Some current_time, [Provider ''_detect_focus''])
         | Some t0 \<Rightarrow>
             if current_time - t0 > focus_lost_threshold then
               (None, [Provider ''_detect_focus'',
                  LogEvent ''focus_loss''
                    (''Focus lost for '' @ str_int (py_int (current_time - t0)) @ '' seconds'')
                    (uniform (7 / 10) (9 / 10) (u_focus d))])
             else (Some t0, [Provider ''_detect_focus'']))
      else (None, [Provider ''_detect_focus'']))"

text \<open>Lines 82-97: face detection.\<close>

definition face_step :: "rat \<Rightarrow> draws \<Rightarrow> rat option \<Rightarrow> rat option \<times> action list" where
  "face_step current_time d no_face_start =
     (let face_count = detect_faces d in
      if face_count = 0 then
        (case no_face_start of
           None \<Rightarrow> (Some current_time, [Provider ''_detect_faces''])
         | Some t0 \<Rightarrow>
             if current_time - t0 > no_face_threshold then
               (None, [Provider ''_detect_faces'',
                  LogEvent ''no_face''
                    (''No face detected for '' @ str_int (py_int (current_time - t0)) @ '' seconds'')
                    (uniform (8 / 10) 1 (u_faces d))])
             else (Some t0, [Provider ''_detect_faces'']))
      else if face_count > 1 then
        (None, [Provider ''_detect_faces'',
           LogEvent ''multiple_faces'' (str_int face_count @ '' faces detected'')
             (uniform (8 / 10) 1 (u_faces d))])
      else (None, [Provider ''_detect_faces'']))"

text \<open>Lines 100-103: object detection.\<close>

definition object_step :: "draws \<Rightarrow> action list" where
  "object_step d =
     (let objects = detect_objects d in
      Provider ''_detect_objects'' #
      map (\<lambda>obj. LogEvent (obj @ ''_detected'') (obj @ '' detected in frame'')
                   (uniform (7 / 10) (9 / 10) (u_objects d))) objects)"

text \<open>Lines 106-108: drowsiness detection.\<close>

definition drowsiness_step :: "draws \<Rightarrow> action list" where
  "drowsiness_step d =
     (if detect_drowsiness d then
        [Provider ''_detect_drowsiness'',
         LogEvent ''drowsiness'' ''Signs of drowsiness detected''
           (uniform (6 / 10) (8 / 10) (u_drowsiness d))]
      else [Provider ''_detect_drowsiness''])"

text \<open>
  The two timers of \<^verbatim>\<open>run\<close>, and the body of its \<^verbatim>\<open>try\<close> block (lines 64-108). The
  simulated detectors and \<^verbatim>\<open>_log_event\<close> raise nothing, so the \<^verbatim>\<open>except\<close> branch of
  line 110 has no part in the model.
\<close>

record timers =
  focus_lost_start :: "rat option"
  no_face_start :: "rat option"

text \<open>Both timers are \<^verbatim>\<open>None\<close> when \<^verbatim>\<open>run\<close> begins (lines 42-43).\<close>

definition no_timers :: timers where
  "no_timers = \<lparr>focus_lost_start = None, no_face_start = None\<rparr>"

definition detect_tick :: "rat \<Rightarrow> draws \<Rightarrow> timers \<Rightarrow> timers \<times> action list" where
  "detect_tick current_time d st =
     (let (fls, a1) = focus_step current_time d (focus_lost_start st);
          (nfs, a2) = face_step current_time d (no_face_start st)
      in (\<lparr>focus_lost_start = fls, no_face_start = nfs\<rparr>,
          a1 @ a2 @ object_step d @ drowsiness_step d))"

section \<open>Detection thread: the loop of \<^verbatim>\<open>run\<close>\<close>

text \<open>
  What one iteration of the \<^verbatim>\<open>while\<close> loop reads from its environment:
  \<open>stop_is_set\<close> is \<^verbatim>\<open>self._stop_event.is_set()\<close> at the loop head;
  \<open>refreshed_status\<close> is the interview's status after \<^verbatim>\<open>refresh_from_db()\<close>, or \<open>None\<close>
  when the refresh raised; \<open>clock_elapsed\<close> and \<open>clock_tick\<close> are the \<^verbatim>\<open>time.time()\<close>
  of lines 59 and 66; \<open>rnd\<close> the random numbers; \<open>wait_result\<close> what
  \<^verbatim>\<open>self._stop_event.wait(timeout=2)\<close> returned.
\<close>

record tick_obs =
  stop_is_set :: bool
  refreshed_status :: "string option"
  clock_elapsed :: rat
  clock_tick :: rat
  rnd :: draws
  wait_result :: bool

datatype exit_reason =
    StopEventSet
  | NotOngoing
  | RefreshError
  | DurationComplete
  | StopDuringWait

text \<open>
  The loop over the observations of its iterations, from the timers \<open>st\<close>. The result is
  the trace of actions and the reason the loop was left; \<open>None\<close> says the loop is still
  running after the last observation given.
\<close>

fun run_loop ::
  "rat \<Rightarrow> int \<Rightarrow> timers \<Rightarrow> tick_obs list \<Rightarrow> action list \<times> exit_reason option" where
  "run_loop start_time duration_seconds st [] = ([], None)"
| "run_loop start_time duration_seconds st (ob # obs) =
     (if stop_is_set ob then ([], Some StopEventSet)
      else
        (case refreshed_status ob of
           None \<Rightarrow> ([], Some RefreshError)
         | Some status \<Rightarrow>
             if status \<noteq> ''ongoing'' then ([], Some NotOngoing)
             else
               let elapsed = clock_elapsed ob - start_time in
               if elapsed > of_int duration_seconds then ([], Some DurationComplete)
               else
                 let (st', acts) = detect_tick (clock_tick ob) (rnd ob) st in
                 if wait_result ob then (acts, Some StopDuringWait)
                 else
                   let (acts', r) = run_loop start_time duration_seconds st' obs
                   in (acts @ acts', r)))"

section \<open>Registry of detection threads\<close>

text \<open>
  A \<^verbatim>\<open>DetectionThread\<close> object: its interview's id, its duration, its stop event,
  whether \<^verbatim>\<open>start()\<close> has been called and whether \<^verbatim>\<open>is_alive()\<close> holds (from
  \<^verbatim>\<open>start()\<close> until \<^verbatim>\<open>run\<close> has returned). The engine's state is the store of all
  thread objects created so far, a thread's handle being its index, and the global
  dictionary \<^verbatim>\<open>active_detection_threads\<close> from interview ids to handles, kept as an
  association list in insertion order. No lock protects the dictionary.
\<close>

record detection_thread =
  t_interview :: nat
  duration_minutes :: int
  stop_event :: bool
  started :: bool
  alive :: bool

record engine =
  threads :: "detection_thread list"
  active_detection_threads :: "(nat \<times> nat) list"

text \<open>The exceptions the registry functions can raise.\<close>

datatype py_error =
    RuntimeError
  | KeyError

definition is_alive :: "nat \<Rightarrow> engine \<Rightarrow> bool" where
  "is_alive h s = (h < length (threads s) \<and> alive (threads s ! h))"

definition is_started :: "nat \<Rightarrow> engine \<Rightarrow> bool" where
  "is_started h s = (h < length (threads s) \<and> started (threads s ! h))"

text \<open>\<^verbatim>\<open>interview_id in active_detection_threads\<close>\<close>

definition registered :: "nat \<Rightarrow> engine \<Rightarrow> bool" where
  "registered interview_id s = (map_of (active_detection_threads s) interview_id \<noteq> None)"

text \<open>
  The effect of \<^verbatim>\<open>del active_detection_threads[interview_id]\<close> on a key that is
  present; where the source does not test for the key first, the caller below raises
  \<open>KeyError\<close> for an absent one.
\<close>

definition del_entry :: "nat \<Rightarrow> engine \<Rightarrow> engine" where
  "del_entry interview_id s =
     s\<lparr>active_detection_threads := AList.delete interview_id (active_detection_threads s)\<rparr>"

text \<open>\<^verbatim>\<open>DetectionThread.stop\<close>: sets the stop event.\<close>

definition stop :: "nat \<Rightarrow> engine \<Rightarrow> engine" where
  "stop h s = s\<lparr>threads := (threads s)[h := (threads s ! h)\<lparr>stop_event := True\<rparr>]\<rparr>"

text \<open>
  The end of \<^verbatim>\<open>run\<close> (lines 117-120): the thread removes the entry of its interview's id
  from the dictionary, if there is one, and is no longer alive.
\<close>

definition run_exit :: "nat \<Rightarrow> engine \<Rightarrow> engine" where
  "run_exit h s =
     (let interview_id = t_interview (threads s ! h);
          s1 = (if registered interview_id s then del_entry interview_id s else s)
      in s1\<lparr>threads := (threads s1)[h := (threads s1 ! h)\<lparr>alive := False\<rparr>]\<rparr>)"

text \<open>
  The wait of \<^verbatim>\<open>thread.join(timeout)\<close> on a started thread. The environment gives the
  time \<open>lat\<close> the thread needs until \<^verbatim>\<open>run\<close> returns (\<open>None\<close>: it does not return).
  The wait is over at once for a thread that is not alive; it ends when the thread ends,
  if that is within the timeout; otherwise it ends at the timeout and the thread is still
  alive. The second component is the time waited.
\<close>

definition join_wait :: "rat \<Rightarrow> rat option \<Rightarrow> nat \<Rightarrow> engine \<Rightarrow> engine \<times> rat" where
  "join_wait timeout lat h s =
     (if \<not> is_alive h s then (s, 0)
      else
        (case lat of
           None \<Rightarrow> (s, timeout)
         | Some d \<Rightarrow> if d \<le> timeout then (run_exit h s, d) else (s, timeout)))"

text \<open>
  \<^verbatim>\<open>thread.join(timeout)\<close>: \<^verbatim>\<open>RuntimeError\<close> for a thread that has not been started,
  otherwise the wait.
\<close>

definition join :: "rat \<Rightarrow> rat option \<Rightarrow> nat \<Rightarrow> engine \<Rightarrow> py_error + engine \<times> rat" where
  "join timeout lat h s =
     (if \<not> is_started h s then Inl RuntimeError else Inr (join_wait timeout lat h s))"

text \<open>
  \<^verbatim>\<open>stop_detection\<close>. The result is the state left behind and either the exception
  raised or the message printed (nothing to stop, stopped successfully, or the warning that
  the thread did not stop cleanly) with the time spent in \<^verbatim>\<open>join\<close>. \<open>ends_late\<close> says
  that the joined thread, found alive at line 193, returns from \<^verbatim>\<open>run\<close> before the
  \<^verbatim>\<open>del\<close> of line 196, which does not test for the key.
\<close>

datatype stop_report =
    NoActiveDetection
  | StoppedSuccessfully
  | DidNotStopCleanly

definition stop_detection ::
  "nat \<Rightarrow> rat option \<Rightarrow> bool \<Rightarrow> engine \<Rightarrow> engine \<times> (py_error + stop_report \<times> rat)" where
  "stop_detection interview_id lat ends_late s =
     (case map_of (active_detection_threads s) interview_id of
        Some thread \<Rightarrow>
          let s1 = stop thread s in
          (case join 10 lat thread s1 of
             Inl e \<Rightarrow> (s1, Inl e)
           | Inr (s2, waited) \<Rightarrow>
               if is_alive thread s2 then
                 let s2' = (if ends_late then run_exit thread s2 else s2) in
                 if \<not> registered interview_id s2' then (s2', Inl KeyError)
                 else
                   let s3 = del_entry interview_id s2';
                       s4 = (if registered interview_id s3 then del_entry interview_id s3 else s3);
                       s5 = (if registered interview_id s4 then del_entry interview_id s4 else s4)
                   in (s5, Inr (DidNotStopCleanly, waited))
               else
                 let s4 = (if registered interview_id s2 then del_entry interview_id s2 else s2);
                     s5 = (if registered interview_id s4 then del_entry interview_id s4 else s4)
                 in (s5, Inr (StoppedSuccessfully, waited)))
      | None \<Rightarrow>
          let s5 = (if registered interview_id s then del_entry interview_id s else s)
          in (s5, Inr (NoActiveDetection, 0)))"

text \<open>
  Lines 172-173 of \<^verbatim>\<open>start_detection\<close>: the thread object is created and registered,
  not yet started. Line 174: \<^verbatim>\<open>detection_thread.start()\<close>.
\<close>

definition create_thread :: "nat \<Rightarrow> int \<Rightarrow> engine \<Rightarrow> engine \<times> nat" where
  "create_thread interview_id duration s =
     (let detection_thread = length (threads s)
      in (\<lparr>threads = threads s @
              [\<lparr>t_interview = interview_id, duration_minutes = duration,
                stop_event = False, started = False, alive = False\<rparr>],
           active_detection_threads =
              AList.update interview_id detection_thread (active_detection_threads s)\<rparr>,
          detection_thread))"

definition thread_start :: "nat \<Rightarrow> engine \<Rightarrow> engine" where
  "thread_start h s =
     s\<lparr>threads := (threads s)[h := (threads s ! h)\<lparr>started := True, alive := True\<rparr>]\<rparr>"

definition register_and_start :: "nat \<Rightarrow> int \<Rightarrow> engine \<Rightarrow> engine \<times> nat" where
  "register_and_start interview_id duration s =
     (let (s1, detection_thread) = create_thread interview_id duration s
      in (thread_start detection_thread s1, detection_thread))"

text \<open>
  \<^verbatim>\<open>start_detection\<close>, run without another operation in between: line 169 stops any
  detection of the interview, lines 172-174 create, register and start the thread. The
  result is the state and the new thread's handle, or the exception of the stop.
\<close>

definition start_detection ::
  "nat \<Rightarrow> int \<Rightarrow> rat option \<Rightarrow> bool \<Rightarrow> engine \<Rightarrow> engine \<times> (py_error + nat)" where
  "start_detection interview_id duration lat ends_late s =
     (case stop_detection interview_id lat ends_late s of
        (s1, Inl e) \<Rightarrow> (s1, Inl e)
      | (s1, Inr _) \<Rightarrow>
          let (s2, detection_thread) = register_and_start interview_id duration s1
          in (s2, Inr detection_thread))"

definition is_detection_active :: "nat \<Rightarrow> engine \<Rightarrow> bool" where
  "is_detection_active interview_id s =
     (case map_of (active_detection_threads s) interview_id of
        Some thread \<Rightarrow> is_alive thread s
      | None \<Rightarrow> False)"

definition get_active_detection_count :: "engine \<Rightarrow> nat" where
  "get_active_detection_count s =
     length (filter (\<lambda>t. is_alive t s) (map snd (active_detection_threads s)))"

text \<open>
  \<^verbatim>\<open>cleanup_inactive_threads\<close>: the loop over the snapshot
  \<^verbatim>\<open>list(active_detection_threads.items())\<close>, counting the entries removed.
\<close>

fun cleanup_loop :: "(nat \<times> nat) list \<Rightarrow> engine \<Rightarrow> nat \<Rightarrow> engine \<times> nat" where
  "cleanup_loop [] s n = (s, n)"
| "cleanup_loop ((interview_id, thread) # items) s n =
     (if \<not> is_alive thread s then cleanup_loop items (del_entry interview_id s) (Suc n)
      else cleanup_loop items s n)"

definition cleanup_inactive_threads :: "engine \<Rightarrow> engine \<times> nat" where
  "cleanup_inactive_threads s = cleanup_loop (active_detection_threads s) s 0"

text \<open>
  \<^verbatim>\<open>force_stop_all_detection\<close>: the loop over the snapshot of the items; \<open>lat\<close> gives
  for each thread the time it needs to end once joined. The result is the state left
  behind and either the exception of a join, which ends the loop, or the list of the times
  waited, one per entry.
\<close>

fun force_stop_loop ::
  "(nat \<times> nat) list \<Rightarrow> (nat \<Rightarrow> rat option) \<Rightarrow> engine \<Rightarrow> engine \<times> (py_error + rat list)" where
  "force_stop_loop [] lat s = (s, Inr [])"
| "force_stop_loop ((interview_id, thread) # items) lat s =
     (let s1 = stop thread s in
      case join 2 (lat thread) thread s1 of
        Inl e \<Rightarrow> (s1, Inl e)
      | Inr (s2, waited) \<Rightarrow>
          let s3 = (if registered interview_id s2 then del_entry interview_id s2 else s2)
          in (case force_stop_loop items lat s3 of
                (s4, Inl e) \<Rightarrow> (s4, Inl e)
              | (s4, Inr ws) \<Rightarrow> (s4, Inr (waited # ws))))"

definition force_stop_all_detection ::
  "(nat \<Rightarrow> rat option) \<Rightarrow> engine \<Rightarrow> engine \<times> (py_error + rat list)" where
  "force_stop_all_detection lat s = force_stop_loop (active_detection_threads s) lat s"

text \<open>
  A thread's \<^verbatim>\<open>run\<close> as seen by the registry: the loop over the observations and, once
  the loop is left, the end of \<^verbatim>\<open>run\<close>. While the loop is running the registry is as it
  was.
\<close>

definition run :: "nat \<Rightarrow> rat \<Rightarrow> tick_obs list \<Rightarrow> engine \<Rightarrow> action list \<times> exit_reason option \<times> engine" where
  "run h start_time obs s =
     (let duration_seconds = duration_minutes (threads s ! h) * 60;
          (acts, r) = run_loop start_time duration_seconds no_timers obs
      in (acts, r, (if r = None then s else run_exit h s)))"

section \<open>Sequences of registry operations\<close>

text \<open>\<^verbatim>\<open>thread._stop_event.is_set()\<close> for the thread with handle \<open>h\<close>.\<close>

definition stop_event_is_set :: "nat \<Rightarrow> engine \<Rightarrow> bool" where
  "stop_event_is_set h s = (h < length (threads s) \<and> stop_event (threads s ! h))"

text \<open>The handles of the threads of an interview that are alive.\<close>

definition live_sessions :: "nat \<Rightarrow> engine \<Rightarrow> nat list" where
  "live_sessions interview_id s =
     filter (\<lambda>h. alive (threads s ! h) \<and> t_interview (threads s ! h) = interview_id)
       [0..<length (threads s)]"

text \<open>The state of a fresh process: no thread object, an empty dictionary.\<close>

definition fresh_engine :: engine where
  "fresh_engine = \<lparr>threads = [], active_detection_threads = []\<rparr>"

text \<open>
  What happens to the registry, one step at a time. \<open>Start\<close> is a call of
  \<^verbatim>\<open>start_detection\<close> that no other step interrupts. Since nothing locks the dictionary,
  a call of \<^verbatim>\<open>start_detection\<close> can also be overtaken between its line 169 and its lines
  172-174: then it is a \<open>StopCall\<close>, later followed by a \<open>Register\<close>. \<open>StopCall\<close> is
  also a call of \<^verbatim>\<open>stop_detection\<close>. \<open>RunReturns\<close> is a live thread leaving its loop by
  itself. An operation that raises leaves the state it had reached.
\<close>

datatype reg_op =
    Start nat int "rat option" bool
  | StopCall nat "rat option" bool
  | Register nat int
  | Cleanup
  | ForceStopAll "nat \<Rightarrow> rat option"
  | RunReturns nat

fun apply_op :: "reg_op \<Rightarrow> engine \<Rightarrow> engine" where
  "apply_op (Start interview_id duration lat ends_late) s =
     fst (start_detection interview_id duration lat ends_late s)"
| "apply_op (StopCall interview_id lat ends_late) s =
     fst (stop_detection interview_id lat ends_late s)"
| "apply_op (Register interview_id duration) s = fst (register_and_start interview_id duration s)"
| "apply_op Cleanup s = fst (cleanup_inactive_threads s)"
| "apply_op (ForceStopAll lat) s = fst (force_stop_all_detection lat s)"
| "apply_op (RunReturns h) s = (if is_alive h s then run_exit h s else s)"

fun apply_ops :: "reg_op list \<Rightarrow> engine \<Rightarrow> engine" where
  "apply_ops [] s = s"
| "apply_ops (op # ops) s = apply_ops ops (apply_op op s)"






text \<open>
  The iterations of a session whose duration check (line 59) is made no later than \<open>t\<close>
  seconds after the session's start: what has happened to the session at that time.
\<close>

definition iterations_until :: "rat \<Rightarrow> rat \<Rightarrow> tick_obs list \<Rightarrow> tick_obs list" where
  "iterations_until start_time t obs =
     takeWhile (\<lambda>ob. clock_elapsed ob - start_time \<le> t) obs"

section \<open>Sample inputs\<close>

text \<open>
  Random numbers of a tick on which the candidate looks away (\<open>r_focus\<close> is not below 0.9)
  and of a tick on which the candidate is attentive; on both, one face, no object, no
  drowsiness. An observation of an iteration at clock time \<open>t\<close> with the interview ongoing
  and no stop signal.
\<close>

definition looking_away :: draws where
  "looking_away =
     \<lparr>r_focus = 95 / 100, u_focus = 1 / 2, r_faces = 1 / 2, u_faces = 1 / 2,
      r_objects = 1 / 2, pick_object = 0, u_objects = 1 / 2,
      r_drowsiness = 1 / 2, u_drowsiness = 1 / 2\<rparr>"

definition attentive :: draws where
  "attentive =
     \<lparr>r_focus = 1 / 2, u_focus = 1 / 2, r_faces = 1 / 2, u_faces = 1 / 2,
      r_objects = 1 / 2, pick_object = 0, u_objects = 1 / 2,
      r_drowsiness = 1 / 2, u_drowsiness = 1 / 2\<rparr>"

definition ongoing_tick :: "rat \<Rightarrow> draws \<Rightarrow> tick_obs" where
  "ongoing_tick t d =
     \<lparr>stop_is_set = False, refreshed_status = Some ''ongoing'',
      clock_elapsed = t, clock_tick = t, rnd = d, wait_result = False\<rparr>"

text \<open>A tick on which the interview is found completed.\<close>

definition completed_tick :: "rat \<Rightarrow> tick_obs" where
  "completed_tick t =
     \<lparr>stop_is_set = False, refreshed_status = Some ''completed'',
      clock_elapsed = t, clock_tick = t, rnd = looking_away, wait_result = False\<rparr>"

text \<open>
  Registries: one live session of one minute for interview 7; five live sessions for the
  interviews 1 to 5. Of the five threads, those with handles 1 and 3 never return when
  joined, the others return after one second.
\<close>

definition one_session :: engine where
  "one_session =
     \<lparr>threads = [\<lparr>t_interview = 7, duration_minutes = 1, stop_event = False, started = True, alive = True\<rparr>],
      active_detection_threads = [(7, 0)]\<rparr>"





definition steady_iterations :: "tick_obs list" where
  "steady_iterations = map (\<lambda>n. ongoing_tick (205 * of_nat n / 100) attentive) [0..<31]"

section \<open>Integrity score: results\<close>

lemma calculate_integrity_score_value:
  "integrity_score (calculate_integrity_score r) =
     max 0 (100 - (2 * focus_lost_events r + 5 * suspicious_events r + 3 * no_face_events r
       + 8 * multiple_faces_events r + 10 * phone_detected_events r
       + 8 * notes_detected_events r + 6 * device_detected_events r
       + 3 * drowsiness_events r + 4 * audio_anomaly_events r))"
  by (simp add: calculate_integrity_score_def Let_def algebra_simps)

text \<open>
  C6. The score returned by \<open>calculate_integrity_score\<close> is
  \<open>max 0 (100 - weighted deductions)\<close> with the weights 2, 5, 3, 8, 10, 8, 6, 3, 4; for
  event counts (none negative) it lies between 0 and 100; with every count zero it is 100;
  and it does not increase when counts grow (each count of \<open>r'\<close> at least that of \<open>r\<close>).
\<close>

theorem integrity_score_formula_range_monotone:
  fixes r r' z :: report
  assumes nonneg: "0 \<le> focus_lost_events r" "0 \<le> suspicious_events r" "0 \<le> no_face_events r"
      "0 \<le> multiple_faces_events r" "0 \<le> phone_detected_events r"
      "0 \<le> notes_detected_events r" "0 \<le> device_detected_events r"
      "0 \<le> drowsiness_events r" "0 \<le> audio_anomaly_events r"
    and grow: "focus_lost_events r \<le> focus_lost_events r'"
      "suspicious_events r \<le> suspicious_events r'" "no_face_events r \<le> no_face_events r'"
      "multiple_faces_events r \<le> multiple_faces_events r'"
      "phone_detected_events r \<le> phone_detected_events r'"
      "notes_detected_events r \<le> notes_detected_events r'"
      "device_detected_events r \<le> device_detected_events r'"
      "drowsiness_events r \<le> drowsiness_events r'"
      "audio_anomaly_events r \<le> audio_anomaly_events r'"
    and zero: "focus_lost_events z = 0" "suspicious_events z = 0" "no_face_events z = 0"
      "multiple_faces_events z = 0" "phone_detected_events z = 0" "notes_detected_events z = 0"
      "device_detected_events z = 0" "drowsiness_events z = 0" "audio_anomaly_events z = 0"
  shows "integrity_score (calculate_integrity_score r) =
           max 0 (100 - (2 * focus_lost_events r + 5 * suspicious_events r
             + 3 * no_face_events r + 8 * multiple_faces_events r
             + 10 * phone_detected_events r + 8 * notes_detected_events r
             + 6 * device_detected_events r + 3 * drowsiness_events r
             + 4 * audio_anomaly_events r))
       \<and> 0 \<le> integrity_score (calculate_integrity_score r)
       \<and> integrity_score (calculate_integrity_score r) \<le> 100
       \<and> integrity_score (calculate_integrity_score z) = 100
       \<and> integrity_score (calculate_integrity_score r')
           \<le> integrity_score (calculate_integrity_score r)"
proof -
  have range: "0 \<le> integrity_score (calculate_integrity_score r)
      \<and> integrity_score (calculate_integrity_score r) \<le> 100"
    using nonneg unfolding calculate_integrity_score_value by linarith
  have allzero: "integrity_score (calculate_integrity_score z) = 100"
    using zero unfolding calculate_integrity_score_value by simp
  have mono: "integrity_score (calculate_integrity_score r')
      \<le> integrity_score (calculate_integrity_score r)"
    using grow unfolding calculate_integrity_score_value by linarith
  from range allzero mono show ?thesis
    using calculate_integrity_score_value [of r] by blast
qed

theorem integrity_score_formula_range_monotone_witness:
  "integrity_score (calculate_integrity_score
      \<lparr>focus_loss_count = 1, suspicious_events = 1, integrity_score = 100,
       focus_lost_events = 1, no_face_events = 2, multiple_faces_events = 0,
       phone_detected_events = 1, notes_detected_events = 0, device_detected_events = 0,
       drowsiness_events = 0, audio_anomaly_events = 0\<rparr>) = 77
   \<and> integrity_score (calculate_integrity_score
      \<lparr>focus_loss_count = 0, suspicious_events = 0, integrity_score = 0,
       focus_lost_events = 0, no_face_events = 0, multiple_faces_events = 0,
       phone_detected_events = 0, notes_detected_events = 0, device_detected_events = 0,
       drowsiness_events = 0, audio_anomaly_events = 0\<rparr>) = 100
   \<and> integrity_score (calculate_integrity_score
      \<lparr>focus_loss_count = 1, suspicious_events = 2, integrity_score = 100,
       focus_lost_events = 1, no_face_events = 2, multiple_faces_events = 0,
       phone_detected_events = 2, notes_detected_events = 0, device_detected_events = 0,
       drowsiness_events = 0, audio_anomaly_events = 0\<rparr>) \<le> 77"
  using integrity_score_formula_range_monotone
    [of "\<lparr>focus_loss_count = 1, suspicious_events = 1, integrity_score = 100,
       focus_lost_events = 1, no_face_events = 2, multiple_faces_events = 0,
       phone_detected_events = 1, notes_detected_events = 0, device_detected_events = 0,
       drowsiness_events = 0, audio_anomaly_events = 0\<rparr>"
      "\<lparr>focus_loss_count = 1, suspicious_events = 2, integrity_score = 100,
       focus_lost_events = 1, no_face_events = 2, multiple_faces_events = 0,
       phone_detected_events = 2, notes_detected_events = 0, device_detected_events = 0,
       drowsiness_events = 0, audio_anomaly_events = 0\<rparr>"
      "\<lparr>focus_loss_count = 0, suspicious_events = 0, integrity_score = 0,
       focus_lost_events = 0, no_face_events = 0, multiple_faces_events = 0,
       phone_detected_events = 0, notes_detected_events = 0, device_detected_events = 0,
       drowsiness_events = 0, audio_anomaly_events = 0\<rparr>"]
  by simp

section \<open>Detection summary: results\<close>

text \<open>
  C10. The integrity score of the summary is \<open>max 0 (100 - 5 * total)\<close>, where the total
  is the number of the interview's events whatever their types; and it can differ from the
  weighted score of the report generated from the same events: for one
  \<^verbatim>\<open>phone_detected\<close> event the summary gives 95 and the report 85.
\<close>

theorem summary_score_counts_total_only:
  "s_total_events (get_detection_summary tbl iv) = int (length (filter_interview tbl iv))
   \<and> s_integrity_score (get_detection_summary tbl iv)
       = max 0 (100 - 5 * s_total_events (get_detection_summary tbl iv))
   \<and> s_integrity_score (get_detection_summary
         [\<lparr>interview = 1, event_type = ''phone_detected'', timestamp = 1000,
           description = ''phone detected in frame'', confidence_score = 4 / 5\<rparr>] 1) = 95
   \<and> map_option integrity_score (generate_report ''completed'' False
         [\<lparr>interview = 1, event_type = ''phone_detected'', timestamp = 1000,
           description = ''phone detected in frame'', confidence_score = 4 / 5\<rparr>] 1) = Some 85"
  by (simp add: get_detection_summary_def generate_report_def calculate_integrity_score_def
      filter_interview_def count_type_def count_type_in_def Let_def)

lemma latest_event_is_first:
  "s_latest_event (get_detection_summary tbl iv)
     = map_option timestamp (first (filter_interview tbl iv))"
  by (simp add: get_detection_summary_def Let_def split: option.splits)

lemma latest_event_none:
  "filter_interview tbl iv = [] \<Longrightarrow> s_latest_event (get_detection_summary tbl iv) = None"
  by (simp add: get_detection_summary_def first_def)

text \<open>
  C9. For an interview with two events, stamped 1000 and 2000, the \<^verbatim>\<open>latest_event\<close> of
  the summary is 1000, the timestamp of the event inserted first, while the most recent
  event is the one stamped 2000.
\<close>

theorem latest_event_is_oldest:
  "s_latest_event (get_detection_summary
      [\<lparr>interview = 1, event_type = ''no_face'', timestamp = 1000,
        description = ''No face detected for 12 seconds'', confidence_score = 9 / 10\<rparr>,
       \<lparr>interview = 1, event_type = ''drowsiness'', timestamp = 2000,
        description = ''Signs of drowsiness detected'', confidence_score = 7 / 10\<rparr>] 1) = Some 1000
   \<and> Max (timestamp ` set (filter_interview
      [\<lparr>interview = 1, event_type = ''no_face'', timestamp = 1000,
        description = ''No face detected for 12 seconds'', confidence_score = 9 / 10\<rparr>,
       \<lparr>interview = 1, event_type = ''drowsiness'', timestamp = 2000,
        description = ''Signs of drowsiness detected'', confidence_score = 7 / 10\<rparr>] 1)) = 2000"
  by (simp add: get_detection_summary_def filter_interview_def first_def Let_def)

section \<open>Registry: basic facts\<close>

subsection \<open>Keys of the dictionary\<close>

lemma registered_iff: "registered k s \<longleftrightarrow> k \<in> fst ` set (active_detection_threads s)"
  by (simp add: registered_def map_of_eq_None_iff)

lemma keys_del_entry:
  "fst ` set (active_detection_threads (del_entry k s)) = fst ` set (active_detection_threads s) - {k}"
  by (auto simp: del_entry_def AList.delete_eq)

lemma not_registered_del_entry: "\<not> registered k (del_entry k s)"
  by (simp add: registered_iff keys_del_entry)









subsection \<open>The stop event stays set\<close>






subsection \<open>Liveness\<close>



lemma not_alive_run_exit: "\<not> is_alive h (run_exit h s)"
  by (auto simp: is_alive_def run_exit_def Let_def del_entry_def)

lemma is_alive_run_exit: "is_alive h (run_exit h' s) = (h \<noteq> h' \<and> is_alive h s)"
  by (cases "h = h'") (auto simp: is_alive_def run_exit_def Let_def del_entry_def)


lemmas engine_defs = force_stop_all_detection_def stop_def join_def join_wait_def run_exit_def
  del_entry_def registered_def is_alive_def is_started_def stop_event_is_set_def
  get_active_detection_count_def Let_def stop_detection_def

section \<open>Stopping a detection\<close>





lemma join_started: "is_started h s \<Longrightarrow> join t lat h s = Inr (join_wait t lat h s)"
  by (simp add: join_def)












text \<open>
  When the joined thread, found alive at line 193, returns from \<^verbatim>\<open>run\<close> before line
  196, its own cleanup has removed the key and the \<^verbatim>\<open>del\<close> raises \<^verbatim>\<open>KeyError\<close>.
\<close>

lemma stop_detection_late_exit_raises:
  "stop_detection 7 None True one_session
     = (\<lparr>threads = [\<lparr>t_interview = 7, duration_minutes = 1, stop_event = True,
                      started = True, alive = False\<rparr>],
         active_detection_threads = []\<rparr>, Inl KeyError)"
  by (simp add: one_session_def engine_defs)




section \<open>Stopping all detections\<close>







section \<open>The loop of a session\<close>

lemma run_loop_append:
  "run_loop start dur st pre = (acts, None) \<Longrightarrow>
     \<exists>st'. \<forall>obs. run_loop start dur st (pre @ obs)
        = (acts @ fst (run_loop start dur st' obs), snd (run_loop start dur st' obs))"
proof (induction pre arbitrary: st acts)
  case Nil
  then show ?case by auto
next
  case (Cons ob pre)
  from Cons.prems obtain st1 a1 a2 where
    cont: "\<not> stop_is_set ob" "refreshed_status ob = Some ''ongoing''"
      "\<not> clock_elapsed ob - start > of_int dur"
      "detect_tick (clock_tick ob) (rnd ob) st = (st1, a1)" "\<not> wait_result ob"
      "run_loop start dur st1 pre = (a2, None)" "acts = a1 @ a2"
    by (auto simp: Let_def split: if_splits option.splits prod.splits)
  from Cons.IH [OF cont(6)] obtain st' where
    "\<forall>obs. run_loop start dur st1 (pre @ obs)
        = (a2 @ fst (run_loop start dur st' obs), snd (run_loop start dur st' obs))" by blast
  then show ?case using cont by (intro exI [of _ st']) (simp add: Let_def)
qed

lemma run_loop_not_ongoing:
  "refreshed_status ob = Some status \<Longrightarrow> status \<noteq> ''ongoing'' \<Longrightarrow>
     run_loop start dur st (ob # rest)
       = ([], Some (if stop_is_set ob then StopEventSet else NotOngoing))"
  by simp

lemma run_loop_duration:
  "clock_elapsed ob - start > of_int dur \<Longrightarrow> ob \<in> set obs \<Longrightarrow>
     snd (run_loop start dur st obs) \<noteq> None"
  by (induction obs arbitrary: st)
     (auto simp: Let_def case_prod_beta split: option.splits)

lemma not_registered_run_exit: "\<not> registered (t_interview (threads s ! h)) (run_exit h s)"
  by (auto simp: run_exit_def Let_def registered_iff keys_del_entry)

lemma not_active_run_exit: "\<not> is_detection_active (t_interview (threads s ! h)) (run_exit h s)"
  using not_registered_run_exit [of s h]
  by (simp add: is_detection_active_def registered_def split: option.splits)

lemmas tick_defs = ongoing_tick_def looking_away_def attentive_def detect_tick_def focus_step_def
  face_step_def object_step_def drowsiness_step_def detect_focus_def detect_faces_def
  detect_objects_def detect_drowsiness_def focus_lost_threshold_def no_face_threshold_def
  uniform_def Let_def is_log_def no_timers_def

lemma sample_run1:
  "run 0 0 [ongoing_tick 0 attentive, ongoing_tick 2 attentive] one_session
    = ([Provider ''_detect_focus'', Provider ''_detect_faces'', Provider ''_detect_objects'',
        Provider ''_detect_drowsiness'', Provider ''_detect_focus'', Provider ''_detect_faces'',
        Provider ''_detect_objects'', Provider ''_detect_drowsiness''], None, one_session)"
  by (simp add: run_def tick_defs one_session_def)

text \<open>
  C3. Let a session be still running after the iterations \<open>pre\<close>, with the trace \<open>acts\<close>.
  If the next iteration finds a status other than \<^verbatim>\<open>ongoing\<close>, then whatever follows the
  whole run has the trace \<open>acts\<close> and no more (no further detector call, no further
  event), the loop is left in that iteration, before its 2-second wait (for the reason
  \<open>NotOngoing\<close> when no stop was signalled), the thread is no longer alive and
  \<open>is_detection_active\<close> is false for its interview.
\<close>

theorem not_ongoing_stops_session:
  assumes running: "run h start pre s = (acts, None, s)"
    and status: "refreshed_status ob = Some status" "status \<noteq> ''ongoing''"
  shows "run h start (pre @ ob # rest) s
           = (acts, Some (if stop_is_set ob then StopEventSet else NotOngoing), run_exit h s)
       \<and> \<not> is_alive h (run_exit h s)
       \<and> \<not> is_detection_active (t_interview (threads s ! h)) (run_exit h s)"
proof -
  define dur where "dur = duration_minutes (threads s ! h) * 60"
  from running have "run_loop start dur no_timers pre = (acts, None)"
    by (auto simp: run_def Let_def dur_def no_timers_def split: prod.splits if_splits)
  then obtain st' where "run_loop start dur no_timers (pre @ ob # rest)
      = (acts @ fst (run_loop start dur st' (ob # rest)), snd (run_loop start dur st' (ob # rest)))"
    using run_loop_append by blast
  then have "run_loop start dur no_timers (pre @ ob # rest)
      = (acts, Some (if stop_is_set ob then StopEventSet else NotOngoing))"
    using run_loop_not_ongoing [OF status] by simp
  then have "run h start (pre @ ob # rest) s
      = (acts, Some (if stop_is_set ob then StopEventSet else NotOngoing), run_exit h s)"
    by (simp add: run_def Let_def dur_def no_timers_def)
  then show ?thesis using not_alive_run_exit not_active_run_exit by blast
qed

theorem not_ongoing_stops_session_witness:
  "run 0 0 [ongoing_tick 0 attentive, ongoing_tick 2 attentive] one_session
    = ([Provider ''_detect_focus'', Provider ''_detect_faces'', Provider ''_detect_objects'',
        Provider ''_detect_drowsiness'', Provider ''_detect_focus'', Provider ''_detect_faces'',
        Provider ''_detect_objects'', Provider ''_detect_drowsiness''], None, one_session)
   \<and> refreshed_status (completed_tick 4) = Some ''completed''
   \<and> run 0 0 ([ongoing_tick 0 attentive, ongoing_tick 2 attentive]
        @ completed_tick 4 # [ongoing_tick 6 looking_away, ongoing_tick 12 looking_away]) one_session
    = ([Provider ''_detect_focus'', Provider ''_detect_faces'', Provider ''_detect_objects'',
        Provider ''_detect_drowsiness'', Provider ''_detect_focus'', Provider ''_detect_faces'',
        Provider ''_detect_objects'', Provider ''_detect_drowsiness''], Some NotOngoing,
        \<lparr>threads = [\<lparr>t_interview = 7, duration_minutes = 1, stop_event = False,
                     started = True, alive = False\<rparr>],
         active_detection_threads = []\<rparr>)
   \<and> \<not> is_detection_active 7 (run_exit 0 one_session)"
  using not_ongoing_stops_session [where h = 0 and start = 0
      and pre = "[ongoing_tick 0 attentive, ongoing_tick 2 attentive]" and s = one_session
      and ob = "completed_tick 4" and status = "''completed''"
      and rest = "[ongoing_tick 6 looking_away, ongoing_tick 12 looking_away]", OF sample_run1]
  by (simp add: completed_tick_def one_session_def engine_defs is_detection_active_def
      run_def tick_defs)

text \<open>
  C7, as it stands, fails: a one-minute session whose iterations begin every 2.05 seconds
  has made 30 duration checks 61 seconds after its start, the last at 59.45 seconds and
  none above 60 seconds; its loop is still running, it is active and registered.
\<close>

theorem session_still_active_after_61_seconds:
  "length (iterations_until 0 61 steady_iterations) = 30
   \<and> map clock_elapsed steady_iterations ! 29 = 1189 / 20
   \<and> map clock_elapsed steady_iterations ! 30 = 123 / 2
   \<and> snd (run 0 0 (iterations_until 0 61 steady_iterations) one_session) = (None, one_session)
   \<and> is_detection_active 7 one_session
   \<and> registered 7 one_session"
  by code_simp

text \<open>
  C7, amended. The duration is checked once per iteration (line 59). Let \<open>ob\<close> be an
  iteration whose elapsed time exceeds the duration budget, 60 times the session's
  minutes. A run that reaches such an iteration returns; if the session was still running
  before it, with the interview ongoing and no stop signalled, the loop is left in that
  iteration for the reason \<open>DurationComplete\<close>. After the end of \<open>run\<close> the thread is
  not alive and the registry holds no entry for its interview.
\<close>

theorem duration_ends_session:
  assumes late: "clock_elapsed ob - start > of_int (duration_minutes (threads s ! h) * 60)"
  shows "(ob \<in> set obs \<longrightarrow>
           (\<exists>acts r. run h start obs s = (acts, Some r, run_exit h s)))
       \<and> (run h start pre s = (acts0, None, s) \<and> \<not> stop_is_set ob
            \<and> refreshed_status ob = Some ''ongoing'' \<longrightarrow>
           run h start (pre @ ob # rest) s = (acts0, Some DurationComplete, run_exit h s))
       \<and> \<not> is_alive h (run_exit h s)
       \<and> \<not> registered (t_interview (threads s ! h)) (run_exit h s)
       \<and> \<not> is_detection_active (t_interview (threads s ! h)) (run_exit h s)"
proof (intro conjI impI)
  define dur where "dur = duration_minutes (threads s ! h) * 60"
  assume "ob \<in> set obs"
  then have "snd (run_loop start dur no_timers obs) \<noteq> None"
    using late run_loop_duration unfolding dur_def by blast
  then show "\<exists>acts r. run h start obs s = (acts, Some r, run_exit h s)"
    by (auto simp: run_def Let_def dur_def no_timers_def case_prod_beta)
next
  define dur where "dur = duration_minutes (threads s ! h) * 60"
  assume a: "run h start pre s = (acts0, None, s) \<and> \<not> stop_is_set ob
      \<and> refreshed_status ob = Some ''ongoing''"
  then have "run_loop start dur no_timers pre = (acts0, None)"
    by (auto simp: run_def Let_def dur_def no_timers_def split: prod.splits if_splits)
  then obtain st' where "run_loop start dur no_timers (pre @ ob # rest)
      = (acts0 @ fst (run_loop start dur st' (ob # rest)), snd (run_loop start dur st' (ob # rest)))"
    using run_loop_append by blast
  moreover have "run_loop start dur st' (ob # rest) = ([], Some DurationComplete)"
    using a late by (simp add: dur_def)
  ultimately have "run_loop start dur no_timers (pre @ ob # rest) = (acts0, Some DurationComplete)"
    by simp
  then show "run h start (pre @ ob # rest) s = (acts0, Some DurationComplete, run_exit h s)"
    by (simp add: run_def Let_def dur_def no_timers_def)
next
  show "\<not> is_alive h (run_exit h s)" by (rule not_alive_run_exit)
next
  show "\<not> registered (t_interview (threads s ! h)) (run_exit h s)"
    by (rule not_registered_run_exit)
next
  show "\<not> is_detection_active (t_interview (threads s ! h)) (run_exit h s)"
    by (rule not_active_run_exit)
qed

theorem duration_ends_session_witness:
  "clock_elapsed (ongoing_tick 61 attentive) - 0 > of_int (duration_minutes (threads one_session ! 0) * 60)
   \<and> run 0 0 [ongoing_tick 0 attentive, ongoing_tick 61 attentive, ongoing_tick 63 attentive] one_session
     = ([Provider ''_detect_focus'', Provider ''_detect_faces'', Provider ''_detect_objects'',
        Provider ''_detect_drowsiness''], Some DurationComplete, run_exit 0 one_session)
   \<and> \<not> is_alive 0 (run_exit 0 one_session)
   \<and> \<not> registered 7 (run_exit 0 one_session)"
  using duration_ends_session [where h = 0 and s = one_session and start = 0
      and ob = "ongoing_tick 61 attentive"
      and obs = "[ongoing_tick 0 attentive, ongoing_tick 61 attentive, ongoing_tick 63 attentive]"
      and pre = "[ongoing_tick 0 attentive]" and rest = "[ongoing_tick 63 attentive]"]
  by (simp add: run_def tick_defs one_session_def engine_defs)

section \<open>Consistency of the registry\<close>

subsection \<open>Fields of the threads\<close>







subsection \<open>The dictionary stays well formed\<close>















subsection \<open>The dictionary only loses keys\<close>



lemma map_of_del_entry:
  "map_of (active_detection_threads (del_entry k' s)) k = Some v \<Longrightarrow>
     map_of (active_detection_threads s) k = Some v"
  by (auto simp: del_entry_def delete_conv' split: if_splits)

subsection \<open>The sessions of one interview\<close>








lemma not_active_after_del: "\<not> is_detection_active k (del_entry k s)"
  using not_registered_del_entry [of k s]
  by (simp add: is_detection_active_def registered_def split: option.splits)

lemma not_active_del_if:
  "\<not> is_detection_active k s \<Longrightarrow>
     \<not> is_detection_active k (if registered k s then del_entry k s else s)"
  by (simp add: not_active_after_del)



lemma register_and_start_state:
  "fst (register_and_start j dur s) =
     \<lparr>threads = threads s @ [\<lparr>t_interview = j, duration_minutes = dur, stop_event = False,
                                started = True, alive = True\<rparr>],
      active_detection_threads = AList.update j (length (threads s)) (active_detection_threads s)\<rparr>"
  by (simp add: register_and_start_def create_thread_def thread_start_def Let_def)



























text \<open>
  So do two calls that do not overlap when the thread of the first does not return within
  the 10 seconds of the join.
\<close>

lemma two_live_sessions_after_slow_join:
  "live_sessions 1
     (apply_ops [Start 1 30 (Some 1) False, Start 1 30 None False] fresh_engine) = [0, 1]"
  by (simp add: fresh_engine_def live_sessions_def start_detection_def case_prod_beta
      register_and_start_state engine_defs numeral_2_eq_2)



section \<open>The events of a tick\<close>

lemma uniform_range:
  assumes "0 \<le> u" "u < 1" "a < b"
  shows "a \<le> uniform a b u \<and> uniform a b u < b"
proof -
  have "0 \<le> (b - a) * u" using assms by simp
  moreover have "(b - a) * u < (b - a) * 1" using assms by (intro mult_strict_left_mono) simp_all
  ultimately show ?thesis by (simp add: uniform_def)
qed

lemma focus_step_logs_iff:
  "(\<exists>a \<in> set (snd (focus_step t d fls)). is_log a)
     \<longleftrightarrow> (\<not> detect_focus d \<and> (\<exists>t0. fls = Some t0 \<and> t - t0 > 5))"
  by (auto simp: focus_step_def Let_def is_log_def focus_lost_threshold_def split: option.splits)

lemma focus_step_logged_type:
  "a \<in> set (snd (focus_step t d fls)) \<Longrightarrow> logged_type a = Some ty \<Longrightarrow> ty = ''focus_loss''"
  by (auto simp: focus_step_def Let_def split: option.splits if_splits)

lemma face_step_logged_type:
  "a \<in> set (snd (face_step t d nfs)) \<Longrightarrow> logged_type a = Some ty \<Longrightarrow>
     ty \<in> set EVENT_TYPE_CHOICES"
  by (auto simp: face_step_def Let_def EVENT_TYPE_CHOICES_def split: option.splits if_splits)

lemma detect_objects_cases:
  "detect_objects d = [] \<or> detect_objects d = [''phone''] \<or> detect_objects d = [''notes'']
     \<or> detect_objects d = [''device'']"
proof -
  have "pick_object d mod 3 = 0 \<or> pick_object d mod 3 = 1 \<or> pick_object d mod 3 = 2"
    by linarith
  then show ?thesis by (auto simp: detect_objects_def)
qed

lemma object_step_logged_type:
  "a \<in> set (object_step d) \<Longrightarrow> logged_type a = Some ty \<Longrightarrow> ty \<in> set EVENT_TYPE_CHOICES"
  using detect_objects_cases [of d]
  by (auto simp: object_step_def Let_def EVENT_TYPE_CHOICES_def)

lemma drowsiness_step_logged_type:
  "a \<in> set (drowsiness_step d) \<Longrightarrow> logged_type a = Some ty \<Longrightarrow> ty \<in> set EVENT_TYPE_CHOICES"
  by (auto simp: drowsiness_step_def EVENT_TYPE_CHOICES_def split: if_splits)

lemma detect_tick_logged_type:
  assumes "a \<in> set (snd (detect_tick t d st))" "logged_type a = Some ty"
  shows "ty = ''focus_loss'' \<or> ty \<in> set EVENT_TYPE_CHOICES"
proof -
  from assms(1) consider "a \<in> set (snd (focus_step t d (focus_lost_start st)))"
    | "a \<in> set (snd (face_step t d (no_face_start st)))"
    | "a \<in> set (object_step d)" | "a \<in> set (drowsiness_step d)"
    by (auto simp: detect_tick_def Let_def case_prod_beta)
  then show ?thesis
    using assms(2) focus_step_logged_type face_step_logged_type object_step_logged_type
      drowsiness_step_logged_type by cases blast+
qed

lemma py_int_51: "py_int (51 / 10) = 5"
  by (simp add: py_int_def floor_eq_iff)

lemma str_int_5: "str_int 5 = ''5''"
  by (simp add: str_int_def str_nat.simps)

subsection \<open>The focus timer over several iterations\<close>

text \<open>
  Events of type \<^verbatim>\<open>focus_loss\<close> come from the focus step only. While every reading of
  lost focus falls in a window of 5 seconds that starts no later than the timer, none is
  logged. When the timer runs from \<open>t1\<close>, the iterations all go on with focus lost, their
  clock readings ascend and stay within 10 seconds of \<open>t1\<close>, and one of them is more than
  5 seconds after \<open>t1\<close>, exactly one is logged.
\<close>

lemma not_focus_loss_choice: "ty \<in> set EVENT_TYPE_CHOICES \<Longrightarrow> ty \<noteq> ''focus_loss''"
  by (auto simp: EVENT_TYPE_CHOICES_def)

lemma filter_focus_other:
  assumes "\<And>a ty. a \<in> set xs \<Longrightarrow> logged_type a = Some ty \<Longrightarrow> ty \<in> set EVENT_TYPE_CHOICES"
  shows "filter (\<lambda>a. logged_type a = Some ''focus_loss'') xs = []"
  using assms not_focus_loss_choice by (fastforce simp: filter_empty_conv)

lemma detect_tick_focus_events:
  "filter (\<lambda>a. logged_type a = Some ''focus_loss'') (snd (detect_tick t d st))
     = filter (\<lambda>a. logged_type a = Some ''focus_loss'')
         (snd (focus_step t d (focus_lost_start st)))"
  using filter_focus_other [of "snd (face_step t d (no_face_start st))", OF face_step_logged_type]
    filter_focus_other [of "object_step d", OF object_step_logged_type]
    filter_focus_other [of "drowsiness_step d", OF drowsiness_step_logged_type]
  by (simp add: detect_tick_def Let_def case_prod_beta)

lemma detect_tick_focus_timer:
  "focus_lost_start (fst (detect_tick t d st)) = fst (focus_step t d (focus_lost_start st))"
  by (simp add: detect_tick_def Let_def case_prod_beta)

lemma focus_step_quiet:
  assumes "detect_focus d \<or> fls = None \<or> (\<exists>t0. fls = Some t0 \<and> t - t0 \<le> 5)"
  shows "filter (\<lambda>a. logged_type a = Some ''focus_loss'') (snd (focus_step t d fls)) = []"
  using assms
  by (auto simp: focus_step_def Let_def focus_lost_threshold_def split: option.splits)

lemma focus_step_timer:
  "fst (focus_step t d fls) = None \<or> fst (focus_step t d fls) = Some t
     \<or> fst (focus_step t d fls) = fls"
  by (auto simp: focus_step_def Let_def split: option.splits)

lemma focus_step_fires:
  assumes "\<not> detect_focus d" "t - t0 > 5"
  shows "filter (\<lambda>a. logged_type a = Some ''focus_loss'') (snd (focus_step t d (Some t0)))
       = [LogEvent ''focus_loss''
            (''Focus lost for '' @ str_int (py_int (t - t0)) @ '' seconds'')
            (uniform (7 / 10) (9 / 10) (u_focus d))]
     \<and> fst (focus_step t d (Some t0)) = None"
  using assms by (simp add: focus_step_def Let_def focus_lost_threshold_def)

lemma focus_step_waits:
  assumes "\<not> detect_focus d" "t - t0 \<le> 5"
  shows "fst (focus_step t d (Some t0)) = Some t0"
  using assms by (simp add: focus_step_def Let_def focus_lost_threshold_def)

lemma run_loop_focus_events_step:
  "filter (\<lambda>a. logged_type a = Some ''focus_loss'') (fst (run_loop start dur st (ob # obs)))
     = [] \<or>
   filter (\<lambda>a. logged_type a = Some ''focus_loss'') (fst (run_loop start dur st (ob # obs)))
     = filter (\<lambda>a. logged_type a = Some ''focus_loss'')
         (snd (focus_step (clock_tick ob) (rnd ob) (focus_lost_start st)))
   \<or>
   filter (\<lambda>a. logged_type a = Some ''focus_loss'') (fst (run_loop start dur st (ob # obs)))
     = filter (\<lambda>a. logged_type a = Some ''focus_loss'')
         (snd (focus_step (clock_tick ob) (rnd ob) (focus_lost_start st)))
       @ filter (\<lambda>a. logged_type a = Some ''focus_loss'')
         (fst (run_loop start dur (fst (detect_tick (clock_tick ob) (rnd ob) st)) obs))"
  by (simp add: Let_def case_prod_beta detect_tick_focus_events split: option.splits)

lemma debounce_no_event:
  assumes "\<forall>ob \<in> set obs. detect_focus (rnd ob)
              \<or> (lo \<le> clock_tick ob \<and> clock_tick ob \<le> lo + 5)"
    and "case focus_lost_start st of None \<Rightarrow> True | Some t0 \<Rightarrow> lo \<le> t0"
  shows "filter (\<lambda>a. logged_type a = Some ''focus_loss'') (fst (run_loop start dur st obs)) = []"
  using assms
proof (induction obs arbitrary: st)
  case Nil
  then show ?case by simp
next
  case (Cons ob obs)
  let ?fls = "focus_lost_start st"
  let ?st' = "fst (detect_tick (clock_tick ob) (rnd ob) st)"
  have ob: "detect_focus (rnd ob) \<or> (lo \<le> clock_tick ob \<and> clock_tick ob \<le> lo + 5)"
    using Cons.prems(1) by simp
  have quiet: "filter (\<lambda>a. logged_type a = Some ''focus_loss'')
      (snd (focus_step (clock_tick ob) (rnd ob) ?fls)) = []"
  proof (rule focus_step_quiet)
    show "detect_focus (rnd ob) \<or> ?fls = None
        \<or> (\<exists>t0. ?fls = Some t0 \<and> clock_tick ob - t0 \<le> 5)"
      using ob Cons.prems(2) by (cases ?fls) auto
  qed
  have timer: "case focus_lost_start ?st' of None \<Rightarrow> True | Some t0 \<Rightarrow> lo \<le> t0"
  proof (cases "detect_focus (rnd ob)")
    case True
    then show ?thesis by (simp add: detect_tick_focus_timer focus_step_def)
  next
    case False
    then have "lo \<le> clock_tick ob" using ob by simp
    then show ?thesis
      using focus_step_timer [of "clock_tick ob" "rnd ob" ?fls] Cons.prems(2)
      by (auto simp: detect_tick_focus_timer split: option.splits)
  qed
  have rest: "filter (\<lambda>a. logged_type a = Some ''focus_loss'')
      (fst (run_loop start dur ?st' obs)) = []"
    using Cons.IH [OF _ timer] Cons.prems(1) by simp
  show ?case
    using run_loop_focus_events_step [of start dur st ob obs] quiet rest by auto
qed

lemma run_loop_continue:
  assumes "\<not> stop_is_set ob" "refreshed_status ob = Some ''ongoing''"
    "\<not> clock_elapsed ob - start > of_int dur" "\<not> wait_result ob"
  shows "fst (run_loop start dur st (ob # obs))
       = snd (detect_tick (clock_tick ob) (rnd ob) st)
         @ fst (run_loop start dur (fst (detect_tick (clock_tick ob) (rnd ob) st)) obs)"
  using assms by (simp add: Let_def case_prod_beta)

lemma debounce_one_event:
  assumes "\<forall>ob \<in> set obs. \<not> stop_is_set ob \<and> refreshed_status ob = Some ''ongoing''
              \<and> \<not> clock_elapsed ob - start > of_int dur \<and> \<not> wait_result ob
              \<and> \<not> detect_focus (rnd ob)"
    and "sorted (map clock_tick obs)"
    and "focus_lost_start st = Some t1"
    and "\<forall>ob \<in> set obs. clock_tick ob \<le> t1 + 10"
    and "\<exists>ob \<in> set obs. clock_tick ob > t1 + 5"
  shows "length (filter (\<lambda>a. logged_type a = Some ''focus_loss'')
           (fst (run_loop start dur st obs))) = 1"
  using assms
proof (induction obs arbitrary: st)
  case Nil
  then show ?case by simp
next
  case (Cons ob obs)
  let ?st' = "fst (detect_tick (clock_tick ob) (rnd ob) st)"
  have away: "\<not> detect_focus (rnd ob)" using Cons.prems(1) by simp
  have split: "filter (\<lambda>a. logged_type a = Some ''focus_loss'')
        (fst (run_loop start dur st (ob # obs)))
      = filter (\<lambda>a. logged_type a = Some ''focus_loss'')
          (snd (focus_step (clock_tick ob) (rnd ob) (Some t1)))
        @ filter (\<lambda>a. logged_type a = Some ''focus_loss'') (fst (run_loop start dur ?st' obs))"
  proof -
    have "fst (run_loop start dur st (ob # obs))
        = snd (detect_tick (clock_tick ob) (rnd ob) st) @ fst (run_loop start dur ?st' obs)"
      by (rule run_loop_continue) (use Cons.prems(1) in simp_all)
    then show ?thesis
      by (simp only: filter_append detect_tick_focus_events Cons.prems(3))
  qed
  have sorted_rest: "sorted (map clock_tick obs)"
    and after: "\<forall>ob' \<in> set obs. clock_tick ob \<le> clock_tick ob'"
    using Cons.prems(2) by simp_all
  have cont_rest: "\<forall>ob \<in> set obs. \<not> stop_is_set ob \<and> refreshed_status ob = Some ''ongoing''
              \<and> \<not> clock_elapsed ob - start > of_int dur \<and> \<not> wait_result ob
              \<and> \<not> detect_focus (rnd ob)"
    and window_rest: "\<forall>ob \<in> set obs. clock_tick ob \<le> t1 + 10"
    using Cons.prems(1,4) by simp_all
  show ?case
  proof (cases "clock_tick ob - t1 > 5")
    case True
    have fired: "filter (\<lambda>a. logged_type a = Some ''focus_loss'')
          (snd (focus_step (clock_tick ob) (rnd ob) (Some t1)))
        = [LogEvent ''focus_loss''
            (''Focus lost for '' @ str_int (py_int (clock_tick ob - t1)) @ '' seconds'')
            (uniform (7 / 10) (9 / 10) (u_focus (rnd ob)))]"
      and cleared: "fst (focus_step (clock_tick ob) (rnd ob) (Some t1)) = None"
      using focus_step_fires [OF away True] by simp_all
    have "\<forall>ob' \<in> set obs. detect_focus (rnd ob')
        \<or> (clock_tick ob \<le> clock_tick ob' \<and> clock_tick ob' \<le> clock_tick ob + 5)"
    proof
      fix ob' assume "ob' \<in> set obs"
      then have "clock_tick ob \<le> clock_tick ob'" "clock_tick ob' \<le> t1 + 10"
        using after window_rest by simp_all
      then show "detect_focus (rnd ob')
          \<or> (clock_tick ob \<le> clock_tick ob' \<and> clock_tick ob' \<le> clock_tick ob + 5)"
        using True by simp
    qed
    moreover have "case focus_lost_start ?st' of None \<Rightarrow> True | Some t0 \<Rightarrow> clock_tick ob \<le> t0"
      using cleared Cons.prems(3) by (simp add: detect_tick_focus_timer)
    ultimately have "filter (\<lambda>a. logged_type a = Some ''focus_loss'')
        (fst (run_loop start dur ?st' obs)) = []"
      by (rule debounce_no_event)
    then show ?thesis using split fired by simp
  next
    case False
    then have le: "clock_tick ob - t1 \<le> 5" by simp
    have quiet: "filter (\<lambda>a. logged_type a = Some ''focus_loss'')
          (snd (focus_step (clock_tick ob) (rnd ob) (Some t1))) = []"
      using le by (intro focus_step_quiet) simp
    have timer: "focus_lost_start ?st' = Some t1"
      using focus_step_waits [OF away le] Cons.prems(3) by (simp add: detect_tick_focus_timer)
    have later: "\<exists>ob' \<in> set obs. clock_tick ob' > t1 + 5"
      using Cons.prems(5) le by auto
    have "length (filter (\<lambda>a. logged_type a = Some ''focus_loss'')
        (fst (run_loop start dur ?st' obs))) = 1"
      by (rule Cons.IH [OF cont_rest sorted_rest timer window_rest later])
    then show ?thesis using split quiet by simp
  qed
qed

lemma debounce_one_event_fresh:
  assumes "\<forall>ob \<in> set (ob1 # obs). \<not> stop_is_set ob \<and> refreshed_status ob = Some ''ongoing''
              \<and> \<not> clock_elapsed ob - start > of_int dur \<and> \<not> wait_result ob
              \<and> \<not> detect_focus (rnd ob)"
    and "sorted (map clock_tick (ob1 # obs))"
    and "focus_lost_start st = None"
    and "\<forall>ob \<in> set obs. clock_tick ob \<le> clock_tick ob1 + 10"
    and "\<exists>ob \<in> set obs. clock_tick ob > clock_tick ob1 + 5"
  shows "length (filter (\<lambda>a. logged_type a = Some ''focus_loss'')
           (fst (run_loop start dur st (ob1 # obs)))) = 1"
proof -
  let ?st' = "fst (detect_tick (clock_tick ob1) (rnd ob1) st)"
  have away: "\<not> detect_focus (rnd ob1)" using assms(1) by simp
  have timer: "focus_lost_start ?st' = Some (clock_tick ob1)"
    using away assms(3) by (simp add: detect_tick_focus_timer focus_step_def)
  have quiet: "filter (\<lambda>a. logged_type a = Some ''focus_loss'')
        (snd (focus_step (clock_tick ob1) (rnd ob1) (focus_lost_start st))) = []"
    using assms(3) by (intro focus_step_quiet) simp
  have cont_rest: "\<forall>ob \<in> set obs. \<not> stop_is_set ob \<and> refreshed_status ob = Some ''ongoing''
              \<and> \<not> clock_elapsed ob - start > of_int dur \<and> \<not> wait_result ob
              \<and> \<not> detect_focus (rnd ob)"
    and sorted_rest: "sorted (map clock_tick obs)"
    using assms(1,2) by simp_all
  have one: "length (filter (\<lambda>a. logged_type a = Some ''focus_loss'')
        (fst (run_loop start dur ?st' obs))) = 1"
    by (rule debounce_one_event [OF cont_rest sorted_rest timer assms(4,5)])
  have "fst (run_loop start dur st (ob1 # obs))
      = snd (detect_tick (clock_tick ob1) (rnd ob1) st) @ fst (run_loop start dur ?st' obs)"
    by (rule run_loop_continue) (use assms(1) in simp_all)
  then show ?thesis using one quiet
    by (simp only: filter_append detect_tick_focus_events append_Nil)
qed

text \<open>
  A row of type \<^verbatim>\<open>focus_loss\<close> is counted by the summary and by no counter of the
  report, whose score stays 100.
\<close>

lemma focus_loss_row_not_in_report:
  "s_focus_loss (get_detection_summary
      (objects_create [] 1000 1 ''focus_loss'' ''Focus lost for 5 seconds'' (4 / 5)) 1) = 1
   \<and> generate_report ''completed'' False
      (objects_create [] 1000 1 ''focus_loss'' ''Focus lost for 5 seconds'' (4 / 5)) 1
     = Some \<lparr>focus_loss_count = 0, suspicious_events = 0, integrity_score = 100,
         focus_lost_events = 0, no_face_events = 0, multiple_faces_events = 0,
         phone_detected_events = 0, notes_detected_events = 0, device_detected_events = 0,
         drowsiness_events = 0, audio_anomaly_events = 0\<rparr>"
  by (simp add: get_detection_summary_def generate_report_def calculate_integrity_score_def
      objects_create_def filter_interview_def count_type_def count_type_in_def Let_def)

text \<open>
  C2. Readings of lost focus at 0, 2.55 and 4.9 seconds followed by an attentive one log
  no event. Readings of lost focus at 0, 2.55 and 5.1 seconds followed by an attentive one
  log exactly one event, with the description \<^verbatim>\<open>Focus lost for 5 seconds\<close> and the
  confidence 0.8; its type is \<^verbatim>\<open>focus_loss\<close>, so no event of type \<^verbatim>\<open>focus_lost\<close> is
  logged.
\<close>

theorem focus_debounce_logs_focus_loss:
  "filter is_log (fst (run_loop 0 1800 no_timers
      [ongoing_tick 0 looking_away, ongoing_tick (51 / 20) looking_away,
       ongoing_tick (49 / 10) looking_away, ongoing_tick (69 / 10) attentive])) = []
   \<and> filter is_log (fst (run_loop 0 1800 no_timers
      [ongoing_tick 0 looking_away, ongoing_tick (51 / 20) looking_away,
       ongoing_tick (51 / 10) looking_away, ongoing_tick (71 / 10) attentive]))
     = [LogEvent ''focus_loss'' ''Focus lost for 5 seconds'' (4 / 5)]
   \<and> filter (\<lambda>a. logged_type a = Some ''focus_lost'') (fst (run_loop 0 1800 no_timers
      [ongoing_tick 0 looking_away, ongoing_tick (51 / 20) looking_away,
       ongoing_tick (51 / 10) looking_away, ongoing_tick (71 / 10) attentive])) = []"
  by (simp add: tick_defs py_int_51 str_int_5)

text \<open>
  C8. Readings of lost focus at 0 and 6 seconds log one event, of type \<^verbatim>\<open>focus_loss\<close>,
  which is not among \<^verbatim>\<open>EVENT_TYPE_CHOICES\<close>.
\<close>

theorem focus_event_type_not_a_choice:
  "map logged_type (filter is_log (fst (run_loop 0 1800 no_timers
      [ongoing_tick 0 looking_away, ongoing_tick 6 looking_away]))) = [Some ''focus_loss'']
   \<and> ''focus_loss'' \<notin> set EVENT_TYPE_CHOICES"
  by (simp add: tick_defs EVENT_TYPE_CHOICES_def py_int_def str_int_def str_nat.simps)

end
